theory Spec2Isabelle
  imports Main "HOL-Library.Sublist"
begin

section \<open>Python string primitives used by the path parser\<close>

text \<open>
  The parser of \<^verbatim>\<open>code/notebooks/build_catalog_guide.ipynb\<close> is built from three
  Python primitives: \<^verbatim>\<open>str.split(sep)\<close>, list indexing with a constant index, and
  tuple unpacking. A Python \<^verbatim>\<open>str\<close> is modelled as a \<^typ>\<open>string\<close>; the parser only
  compares characters for equality.
\<close>

datatype py_exception = IndexError | ValueError | KeyError string

text \<open>\<^verbatim>\<open>s.find(sep)\<close>: the least index at which \<open>sep\<close> occurs in \<open>s\<close>.\<close>

fun find_str :: "string \<Rightarrow> string \<Rightarrow> nat option" where
  "find_str [] sep = (if sep = [] then Some 0 else None)"
| "find_str (c # cs) sep =
     (if prefix sep (c # cs) then Some 0 else map_option Suc (find_str cs sep))"

text \<open>
  \<^verbatim>\<open>s.split(sep)\<close> for a non-empty separator: cut at the leftmost occurrence, keep the
  text before it, and go on after the separator; occurrences do not overlap. The test for
  an empty separator is there for termination only: \<open>split_str\<close> below raises in that
  case, as Python does, and never calls \<open>split_at\<close>.
\<close>

function split_at :: "string \<Rightarrow> string \<Rightarrow> string list" where
  "split_at s sep =
     (if sep = [] then [s]
      else case find_str s sep of
             None \<Rightarrow> [s]
           | Some i \<Rightarrow> take i s # split_at (drop (i + length sep) s) sep)"
  by pat_completeness auto
termination
proof (relation "measure (\<lambda>(s, sep). length s)")
  show "wf (measure (\<lambda>(s, sep). length s))" by simp
next
  fix s sep :: string and i :: nat
  assume "sep \<noteq> []" and "find_str s sep = Some i"
  then have "s \<noteq> []" by (cases s) auto
  with \<open>sep \<noteq> []\<close>
  show "((drop (i + length sep) s, sep), (s, sep)) \<in> measure (\<lambda>(s, sep). length s)"
    by simp
qed

text \<open>Python raises \<^verbatim>\<open>ValueError: empty separator\<close> when \<open>sep\<close> is empty.\<close>

definition split_str :: "string \<Rightarrow> string \<Rightarrow> py_exception + string list" where
  "split_str s sep = (if sep = [] then Inl ValueError else Inr (split_at s sep))"

text \<open>\<^verbatim>\<open>xs[i]\<close> for a non-negative constant index.\<close>

definition getitem :: "'a list \<Rightarrow> nat \<Rightarrow> py_exception + 'a" where
  "getitem xs i = (if i < length xs then Inr (xs ! i) else Inl IndexError)"

section \<open>The records the parser returns\<close>

record catalog_record =
  installation :: string
  activity_id :: string
  institution_id :: string
  source_id :: string
  experiment_id :: string
  table_id :: string
  variable_id :: string
  grid_label :: string
  path :: string

text \<open>
  The failure dictionary \<^verbatim>\<open>{INVALID_ASSET: filepath, TRACEBACK: traceback.format_exc()}\<close>.
  The formatted traceback is kept as the exception that was caught.
\<close>

record parse_failure =
  invalid_asset :: string
  traceback :: py_exception

datatype parse_result = CatalogRecord catalog_record | ParseFailure parse_failure

section \<open>The parser\<close>

definition root_prefix :: string where
  "root_prefix = ''s3://wfclimres/''"

definition zmetadata :: string where
  "zmetadata = ''.zmetadata''"

text \<open>The dictionary literal \<^verbatim>\<open>simulation_dict\<close>, in the order of the source.\<close>

definition simulation_table :: "(string \<times> string) list" where
  "simulation_table =
     [(''ec-earth3'', ''EC-Earth3''),
      (''mpi-esm1-2-hr'', ''MPI-ESM1-2-HR''),
      (''miroc6'', ''MIROC6''),
      (''taiesm1'', ''TaiESM1''),
      (''era5'', ''ERA5'')]"

definition simulation_dict :: "string \<rightharpoonup> string" where
  "simulation_dict = map_of simulation_table"

text \<open>
  The first statement of the \<^verbatim>\<open>try\<close> block, up to the unpacking:
  \<^verbatim>\<open>filepath.split("s3://wfclimres/")[1].split("/")\<close>.
\<close>

definition path_segments :: "string \<Rightarrow> py_exception + string list" where
  "path_segments filepath =
     (case split_str filepath root_prefix of
        Inl e \<Rightarrow> Inl e
      | Inr pieces \<Rightarrow>
          (case getitem pieces 1 of
             Inl e \<Rightarrow> Inl e
           | Inr remainder \<Rightarrow> split_str remainder ''/''))"

text \<open>The second statement: \<^verbatim>\<open>filepath.split(".zmetadata")[0]\<close>.\<close>

definition strip_zmetadata :: "string \<Rightarrow> py_exception + string" where
  "strip_zmetadata filepath =
     (case split_str filepath zmetadata of
        Inl e \<Rightarrow> Inl e
      | Inr pieces \<Rightarrow> getitem pieces 0)"

text \<open>
  \<^verbatim>\<open>parse_ae_ren_data\<close>. \<open>Inl\<close> is an exception that leaves the function; the
  \<^verbatim>\<open>except Exception\<close> clause covers the two statements of the \<^verbatim>\<open>try\<close> block only,
  and the name \<open>filepath\<close> is rebound by the second one, after the unpacking. The
  dictionary lookup \<^verbatim>\<open>simulation_dict[source_id]\<close> is outside the \<^verbatim>\<open>try\<close> block.
\<close>

definition parse_ae_ren_data :: "string \<Rightarrow> py_exception + parse_result" where
  "parse_ae_ren_data filepath =
     (case path_segments filepath of
        Inl e \<Rightarrow> Inr (ParseFailure \<lparr>invalid_asset = filepath, traceback = e\<rparr>)
      | Inr [institution, installation', source, experiment, table, variable, grid, u] \<Rightarrow>
          (case strip_zmetadata filepath of
             Inl e \<Rightarrow> Inr (ParseFailure \<lparr>invalid_asset = filepath, traceback = e\<rparr>)
           | Inr filepath' \<Rightarrow>
               (case simulation_dict source of
                  None \<Rightarrow> Inl (KeyError source)
                | Some name \<Rightarrow>
                    Inr (CatalogRecord
                      \<lparr>installation = installation',
                       activity_id = ''WRF'',
                       institution_id = ''ERA'',
                       source_id = name,
                       experiment_id = experiment,
                       table_id = table,
                       variable_id = variable,
                       grid_label = grid,
                       path = filepath'\<rparr>)))
      | Inr _ \<Rightarrow> Inr (ParseFailure \<lparr>invalid_asset = filepath, traceback = ValueError\<rparr>))"

section \<open>Facts about searching and splitting\<close>

text \<open>
  The defining equation of \<open>split_at\<close> is an unconditional recursion; it is unfolded
  by hand where needed.
\<close>

declare split_at.simps [simp del]

text \<open>\<open>find_str\<close> finds an occurrence exactly when there is one, and finds the leftmost.\<close>

lemma find_str_occurs: "find_str (a @ sep @ b) sep \<noteq> None"
proof (induction a)
  case Nil
  show ?case
  proof (cases "sep @ b")
    case Nil
    then show ?thesis by simp
  next
    case (Cons c cs)
    then have "prefix sep (c # cs)" by (metis prefixI)
    then have "find_str (c # cs) sep = Some 0" by simp
    with Cons show ?thesis by simp
  qed
next
  case (Cons x a)
  then show ?case by simp
qed

lemma find_str_None_iff: "find_str s sep = None \<longleftrightarrow> (\<forall>a b. s \<noteq> a @ sep @ b)"
proof
  assume "find_str s sep = None"
  then show "\<forall>a b. s \<noteq> a @ sep @ b" using find_str_occurs by metis
next
  assume "\<forall>a b. s \<noteq> a @ sep @ b"
  then show "find_str s sep = None"
  proof (induction s)
    case Nil
    then show ?case by auto
  next
    case (Cons c cs)
    have np: "\<not> prefix sep (c # cs)"
    proof
      assume "prefix sep (c # cs)"
      then obtain zs where "c # cs = [] @ sep @ zs" by (auto simp: prefix_def)
      with Cons.prems show False by blast
    qed
    have "\<forall>a b. cs \<noteq> a @ sep @ b"
    proof (intro allI notI)
      fix a b assume "cs = a @ sep @ b"
      then have "c # cs = (c # a) @ sep @ b" by simp
      with Cons.prems show False by blast
    qed
    with Cons.IH np show ?case by simp
  qed
qed

lemma find_str_Some_prefix:
  "find_str s sep = Some i \<Longrightarrow> i \<le> length s \<and> prefix sep (drop i s)"
proof (induction s arbitrary: i)
  case Nil
  then show ?case by (auto split: if_splits)
next
  case (Cons c cs)
  then show ?case by (auto split: if_splits)
qed

lemma find_str_Some_least:
  "find_str s sep = Some i \<Longrightarrow> s = a @ sep @ b \<Longrightarrow> i \<le> length a"
proof (induction s arbitrary: i a)
  case Nil
  then show ?case by (auto split: if_splits)
next
  case (Cons c cs)
  show ?case
  proof (cases "prefix sep (c # cs)")
    case True
    then have "find_str (c # cs) sep = Some 0" by simp
    with Cons.prems(1) show ?thesis by simp
  next
    case False
    with Cons.prems(1) obtain j where j: "find_str cs sep = Some j" "i = Suc j" by auto
    from False Cons.prems(2) have "a \<noteq> []" by auto
    then obtain a' where a': "a = c # a'" "cs = a' @ sep @ b"
      using Cons.prems(2) by (cases a) auto
    from Cons.IH[OF j(1) a'(2)] j a' show ?thesis by simp
  qed
qed

lemma split_at_not_Nil: "split_at s sep \<noteq> []"
  by (subst split_at.simps) (simp split: option.split)

lemma hd_split_at:
  "sep \<noteq> [] \<Longrightarrow>
   hd (split_at s sep) = (case find_str s sep of None \<Rightarrow> s | Some i \<Rightarrow> take i s)"
  by (subst split_at.simps) (simp split: option.split)

lemma hd_split_at_no_sep:
  assumes "sep \<noteq> []"
  shows "hd (split_at s sep) \<noteq> a @ sep @ b"
proof (cases "find_str s sep")
  case None
  then have "\<forall>a b. s \<noteq> a @ sep @ b" by (simp add: find_str_None_iff)
  moreover from None assms have "hd (split_at s sep) = s" by (simp add: hd_split_at)
  ultimately show ?thesis by simp
next
  case (Some i)
  show ?thesis
  proof
    assume h: "hd (split_at s sep) = a @ sep @ b"
    with Some assms have t: "take i s = a @ sep @ b" by (simp add: hd_split_at)
    have "s = take i s @ drop i s" by simp
    with t have "s = a @ sep @ (b @ drop i s)" by simp
    from find_str_Some_least[OF Some this] have "i \<le> length a" .
    moreover have "length (take i s) \<le> i" by simp
    moreover from t have "length (take i s) = length a + length sep + length b" by simp
    moreover from assms have "0 < length sep" by simp
    ultimately show False by linarith
  qed
qed

lemma split_at_Cons:
  assumes "sep \<noteq> []"
  shows "split_at (x # xs) sep =
     (if prefix sep (x # xs) then [] # split_at (drop (length sep) (x # xs)) sep
      else (x # hd (split_at xs sep)) # tl (split_at xs sep))"
proof (cases "prefix sep (x # xs)")
  case True
  with assms show ?thesis by (subst split_at.simps) simp
next
  case False
  show ?thesis
  proof (cases "find_str xs sep")
    case None
    with False assms show ?thesis
      by (simp add: split_at.simps[of "x # xs"] split_at.simps[of xs])
  next
    case (Some i)
    with False assms show ?thesis
      by (simp add: split_at.simps[of "x # xs"] split_at.simps[of xs])
  qed
qed

lemma split_at_Nil: "split_at [] sep = [[]]"
  by (subst split_at.simps) simp

lemma split_at_char_append:
  "split_at (a @ c # b) [c] = split_at a [c] @ split_at b [c]"
proof (induction a)
  case Nil
  show ?case by (simp add: split_at_Cons split_at_Nil)
next
  case (Cons x a)
  then show ?case by (auto simp: split_at_Cons split_at_not_Nil)
qed

lemma split_at_double_char: "[] \<in> set (split_at (a @ c # c # b) [c])"
  by (simp add: split_at_char_append[of a c "c # b"] split_at_Cons[of "[c]" c b])

lemma root_prefix_occurs_empty_segment:
  assumes "rest = a @ root_prefix @ b"
  shows "[] \<in> set (split_at rest ''/'')"
proof -
  from assms have "rest = (a @ ''s3:'') @ CHR ''/'' # CHR ''/'' # (''wfclimres/'' @ b)"
    by (simp add: root_prefix_def)
  then show ?thesis using split_at_double_char by metis
qed

lemma split_at_root_prefix:
  assumes "[] \<notin> set (split_at rest ''/'')"
  shows "split_at (root_prefix @ rest) root_prefix = [[], rest]"
proof -
  have ne: "root_prefix \<noteq> []" by (simp add: root_prefix_def)
  have "\<forall>a b. rest \<noteq> a @ root_prefix @ b"
    using assms root_prefix_occurs_empty_segment by blast
  then have none: "find_str rest root_prefix = None" by (simp add: find_str_None_iff)
  have "root_prefix @ rest \<noteq> []" using ne by simp
  then obtain c cs where ccs: "root_prefix @ rest = c # cs" by (cases "root_prefix @ rest") auto
  have "prefix root_prefix (c # cs)" using ccs by (metis prefixI)
  then have "split_at (c # cs) root_prefix = [] # split_at (drop (length root_prefix) (c # cs)) root_prefix"
    using ne by (simp add: split_at_Cons)
  also have "drop (length root_prefix) (c # cs) = rest" using ccs by (metis append_eq_conv_conj)
  also have "split_at rest root_prefix = [rest]"
    using none ne by (subst split_at.simps) simp
  finally show ?thesis using ccs by simp
qed

section \<open>What the two statements of the try block compute\<close>

lemma root_prefix_not_Nil: "root_prefix \<noteq> []"
  by (simp add: root_prefix_def)

lemma zmetadata_not_Nil: "zmetadata \<noteq> []"
  by (simp add: zmetadata_def)

lemma strip_zmetadata_eq:
  "strip_zmetadata filepath =
     Inr (case find_str filepath zmetadata of None \<Rightarrow> filepath | Some i \<Rightarrow> take i filepath)"
proof -
  have "0 < length (split_at filepath zmetadata)"
    using split_at_not_Nil by simp
  then have "getitem (split_at filepath zmetadata) 0 = Inr (hd (split_at filepath zmetadata))"
    by (simp add: getitem_def hd_conv_nth)
  then show ?thesis
    by (simp add: strip_zmetadata_def split_str_def zmetadata_not_Nil hd_split_at)
qed

lemma path_segments_eq:
  "path_segments filepath =
     (if 1 < length (split_at filepath root_prefix)
      then Inr (split_at (split_at filepath root_prefix ! 1) ''/'')
      else Inl IndexError)"
  by (simp add: path_segments_def split_str_def getitem_def root_prefix_not_Nil)

lemma path_segments_no_root:
  assumes "\<forall>a b. filepath \<noteq> a @ root_prefix @ b"
  shows "path_segments filepath = Inl IndexError"
proof -
  from assms have "find_str filepath root_prefix = None" by (simp add: find_str_None_iff)
  then have "split_at filepath root_prefix = [filepath]"
    by (subst split_at.simps) simp
  then show ?thesis by (simp add: path_segments_eq)
qed

lemma path_segments_Inl: "path_segments filepath = Inl e \<Longrightarrow> e = IndexError"
  by (simp add: path_segments_eq split: if_splits)

lemma path_segments_rooted:
  assumes "[] \<notin> set (split_at rest ''/'')"
  shows "path_segments (root_prefix @ rest) = Inr (split_at rest ''/'')"
  using split_at_root_prefix[OF assms] by (simp add: path_segments_eq)

section \<open>The three outcomes of the parser\<close>

lemma parse_success:
  assumes "path_segments filepath = Inr [s1, s2, s3, s4, s5, s6, s7, s8]"
    and "simulation_dict s3 = Some name"
  shows "parse_ae_ren_data filepath =
     Inr (CatalogRecord
       \<lparr>installation = s2, activity_id = ''WRF'', institution_id = ''ERA'', source_id = name,
        experiment_id = s4, table_id = s5, variable_id = s6, grid_label = s7,
        path = (case find_str filepath zmetadata of None \<Rightarrow> filepath
                | Some i \<Rightarrow> take i filepath)\<rparr>)"
  using assms by (simp add: parse_ae_ren_data_def strip_zmetadata_eq)

lemma parse_key_error:
  assumes "path_segments filepath = Inr [s1, s2, s3, s4, s5, s6, s7, s8]"
    and "simulation_dict s3 = None"
  shows "parse_ae_ren_data filepath = Inl (KeyError s3)"
  using assms by (simp add: parse_ae_ren_data_def strip_zmetadata_eq)

lemma parse_index_error:
  assumes "path_segments filepath = Inl e"
  shows "parse_ae_ren_data filepath =
     Inr (ParseFailure \<lparr>invalid_asset = filepath, traceback = IndexError\<rparr>)"
  using assms path_segments_Inl[OF assms] by (simp add: parse_ae_ren_data_def)

lemma parse_value_error:
  assumes "path_segments filepath = Inr segs" and "length segs \<noteq> 8"
  shows "parse_ae_ren_data filepath =
     Inr (ParseFailure \<lparr>invalid_asset = filepath, traceback = ValueError\<rparr>)"
  using assms by (auto simp: parse_ae_ren_data_def split: list.splits)

lemma length_8_list:
  assumes "length (segs :: 'a list) = 8"
  obtains s1 s2 s3 s4 s5 s6 s7 s8 where "segs = [s1, s2, s3, s4, s5, s6, s7, s8]"
proof -
  from assms have "segs = [segs ! 0, segs ! 1, segs ! 2, segs ! 3, segs ! 4, segs ! 5, segs ! 6, segs ! 7]"
    by (intro nth_equalityI) (auto simp: nth_Cons' less_Suc_eq numeral_eq_Suc)
  then show thesis using that by blast
qed

lemma parse_CatalogRecordD:
  assumes "parse_ae_ren_data filepath = Inr (CatalogRecord r)"
  obtains s1 s2 s3 s4 s5 s6 s7 s8 name where
    "path_segments filepath = Inr [s1, s2, s3, s4, s5, s6, s7, s8]"
    "simulation_dict s3 = Some name"
    "r = \<lparr>installation = s2, activity_id = ''WRF'', institution_id = ''ERA'', source_id = name,
        experiment_id = s4, table_id = s5, variable_id = s6, grid_label = s7,
        path = (case find_str filepath zmetadata of None \<Rightarrow> filepath
                | Some i \<Rightarrow> take i filepath)\<rparr>"
proof (cases "path_segments filepath")
  case (Inl e)
  from parse_index_error[OF this] assms show thesis by simp
next
  case (Inr segs)
  show thesis
  proof (cases "length segs = 8")
    case False
    from parse_value_error[OF Inr this] assms show thesis by simp
  next
    case True
    then obtain s1 s2 s3 s4 s5 s6 s7 s8 where segs: "segs = [s1, s2, s3, s4, s5, s6, s7, s8]"
      by (rule length_8_list)
    show thesis
    proof (cases "simulation_dict s3")
      case None
      from parse_key_error[OF Inr[unfolded segs] None] assms show thesis by simp
    next
      case (Some name)
      from parse_success[OF Inr[unfolded segs] Some] assms that[OF Inr[unfolded segs] Some]
      show thesis by simp
    qed
  qed
qed

section \<open>Concrete paths\<close>

lemmas parser_defs =
  parse_ae_ren_data_def path_segments_def strip_zmetadata_def split_str_def getitem_def
  root_prefix_def zmetadata_def simulation_dict_def simulation_table_def split_at.simps

lemma parse_example:
  "parse_ae_ren_data ''s3://wfclimres/ERA/pv_distributed/ec-earth3/historical/1hr/cf/d03/.zmetadata'' =
     Inr (CatalogRecord
       \<lparr>installation = ''pv_distributed'', activity_id = ''WRF'', institution_id = ''ERA'',
        source_id = ''EC-Earth3'', experiment_id = ''historical'', table_id = ''1hr'',
        variable_id = ''cf'', grid_label = ''d03'',
        path = ''s3://wfclimres/ERA/pv_distributed/ec-earth3/historical/1hr/cf/d03/''\<rparr>)"
  by (simp add: parser_defs)

lemma no_root_example:
  "\<forall>a b. ''gs://other/ERA/pv_distributed/ec-earth3/historical/1hr/cf/d03/.zmetadata''
     \<noteq> a @ root_prefix @ b"
proof -
  have "find_str ''gs://other/ERA/pv_distributed/ec-earth3/historical/1hr/cf/d03/.zmetadata''
      root_prefix = None"
    by (simp add: root_prefix_def)
  then show ?thesis by (rule iffD1[OF find_str_None_iff])
qed

section \<open>The lookup table and the stripped path\<close>

lemma simulation_dict_Some:
  "simulation_dict tok = Some name \<Longrightarrow>
     name \<in> {''EC-Earth3'', ''MPI-ESM1-2-HR'', ''MIROC6'', ''TaiESM1'', ''ERA5''} \<and> name \<noteq> tok
     \<and> simulation_dict name = None"
  by (auto simp: simulation_dict_def simulation_table_def split: if_splits)

lemma find_str_terminal:
  assumes "find_str s sep = Some (length s - length sep)"
  shows "take (length s - length sep) s @ sep = s"
proof -
  from find_str_Some_prefix[OF assms]
  have p: "prefix sep (drop (length s - length sep) s)" by simp
  then obtain zs where zs: "drop (length s - length sep) s = sep @ zs"
    by (auto simp: prefix_def)
  then have "length (drop (length s - length sep) s) = length sep + length zs"
    by simp
  then have "length s - (length s - length sep) = length sep + length zs"
    by simp
  then have "length zs = 0" by arith
  then have "zs = []" by simp
  with zs have "drop (length s - length sep) s = sep" by simp
  then show ?thesis by (metis append_take_drop_id)
qed

lemma path_field_rooted_not_Nil:
  "(case find_str (root_prefix @ rest) zmetadata of None \<Rightarrow> root_prefix @ rest
    | Some i \<Rightarrow> take i (root_prefix @ rest)) \<noteq> []"
proof (cases "find_str (root_prefix @ rest) zmetadata")
  case None
  then show ?thesis by (simp add: root_prefix_not_Nil)
next
  case (Some i)
  have "i \<noteq> 0"
  proof
    assume "i = 0"
    with find_str_Some_prefix[OF Some] have "prefix zmetadata (root_prefix @ rest)" by simp
    then show False by (simp add: zmetadata_def root_prefix_def)
  qed
  with Some show ?thesis by (simp add: root_prefix_not_Nil)
qed

section \<open>The piece between two occurrences of the root prefix\<close>

text \<open>
  When \<open>pre\<close> is the text before the leftmost occurrence of the separator, the split
  starts with \<open>pre\<close>; the piece at index 1 then ends at the next occurrence, or at
  the end of the string when there is none.
\<close>

lemma split_at_leftmost:
  assumes "sep \<noteq> []" and "s = pre @ sep @ rest"
    and "\<forall>a b. s = a @ sep @ b \<longrightarrow> length pre \<le> length a"
  shows "split_at s sep = pre # split_at rest sep"
proof -
  from find_str_occurs[of pre sep rest] assms(2)
  obtain i where i: "find_str s sep = Some i" by auto
  from find_str_Some_least[OF i assms(2)] have le: "i \<le> length pre" .
  from find_str_Some_prefix[OF i] have ils: "i \<le> length s" and "prefix sep (drop i s)"
    by simp_all
  then obtain b where "drop i s = sep @ b" by (auto simp: prefix_def)
  then have "s = take i s @ sep @ b" by (metis append_take_drop_id)
  with assms(3) have "length pre \<le> length (take i s)" by blast
  with ils le have "i = length pre" by simp
  with assms(2) have "take i s = pre" and "drop (i + length sep) s = rest" by simp_all
  with i assms(1) show ?thesis by (subst split_at.simps) simp
qed

lemma hd_split_at_between:
  assumes "sep \<noteq> []" and "tail = [] \<or> prefix sep tail"
    and "\<forall>a b. mid @ tail = a @ sep @ b \<longrightarrow> length mid \<le> length a"
  shows "hd (split_at (mid @ tail) sep) = mid"
  using assms(2)
proof
  assume tail: "tail = []"
  have "\<forall>a b. mid \<noteq> a @ sep @ b"
  proof (intro allI notI)
    fix a b assume m: "mid = a @ sep @ b"
    with assms(3) tail have "length mid \<le> length a" by simp
    with m assms(1) show False by simp
  qed
  then have "find_str mid sep = None" by (simp add: find_str_None_iff)
  with tail assms(1) show ?thesis by (simp add: hd_split_at)
next
  assume "prefix sep tail"
  then obtain t where "tail = sep @ t" by (auto simp: prefix_def)
  then have "mid @ tail = mid @ sep @ t" by simp
  from split_at_leftmost[OF assms(1) this assms(3)] show ?thesis by simp
qed

lemma path_segments_between:
  assumes "filepath = pre @ root_prefix @ mid @ tail"
    and "\<forall>a b. filepath = a @ root_prefix @ b \<longrightarrow> length pre \<le> length a"
    and "tail = [] \<or> prefix root_prefix tail"
    and "\<forall>a b. mid @ tail = a @ root_prefix @ b \<longrightarrow> length mid \<le> length a"
  shows "path_segments filepath = Inr (split_at mid ''/'')"
proof -
  have s: "split_at filepath root_prefix = pre # split_at (mid @ tail) root_prefix"
    using split_at_leftmost[OF root_prefix_not_Nil assms(1,2)] .
  obtain p ps where ps: "split_at (mid @ tail) root_prefix = p # ps"
    using split_at_not_Nil by (cases "split_at (mid @ tail) root_prefix") auto
  with hd_split_at_between[OF root_prefix_not_Nil assms(3,4)] have "p = mid" by simp
  with s ps show ?thesis by (simp add: path_segments_eq)
qed

lemma never_occurs:
  assumes "find_str s sep = None"
  shows "\<forall>a b. s = a @ sep @ b \<longrightarrow> P a b"
  using assms by (simp add: find_str_None_iff)

lemma leftmost_occurrence:
  assumes "find_str s sep = Some (length pre)"
  shows "\<forall>a b. s = a @ sep @ b \<longrightarrow> length pre \<le> length a"
  using find_str_Some_least[OF assms] by blast

section \<open>The claims\<close>

subsection \<open>C1: an unknown simulation token\<close>

text \<open>
  C1 says that the parser never raises: every path yields a catalog record or a parse
  failure record, and in particular an eight-segment path whose simulation token is not a
  key of the lookup table yields a parse failure record. On the path of the claim the
  code leaves \<^verbatim>\<open>parse_ae_ren_data\<close> with \<^verbatim>\<open>KeyError\<close>: the lookup
  \<^verbatim>\<open>simulation_dict[source_id]\<close> stands after the \<^verbatim>\<open>try\<close> block, so no handler
  covers it. The docstring promises the failure dictionary whenever parsing fails.
\<close>

theorem parse_unknown_simulation_raises:
  "parse_ae_ren_data
     ''s3://wfclimres/ERA/pv_distributed/unknown-model-x/historical/1hr/cf/d03/.zmetadata'' =
   Inl (KeyError ''unknown-model-x'')"
  by (simp add: parser_defs)

subsection \<open>C2: which segment feeds which field\<close>

text \<open>
  As stated, C2 takes the \<open>installation\<close> field from the first segment after the root
  prefix. The unpacking binds the first segment to a local name that is never read, and
  \<open>installation\<close> is the second segment: on the path below the first segment is
  \<open>ERA\<close> and the field is \<open>pv_distributed\<close>.
\<close>

theorem installation_is_not_first_segment:
  "path_segments
     ''s3://wfclimres/ERA/pv_distributed/ec-earth3/historical/1hr/cf/d03/.zmetadata'' =
     Inr [''ERA'', ''pv_distributed'', ''ec-earth3'', ''historical'', ''1hr'', ''cf'', ''d03'',
          ''.zmetadata''] \<and>
   parse_ae_ren_data
     ''s3://wfclimres/ERA/pv_distributed/ec-earth3/historical/1hr/cf/d03/.zmetadata'' =
     Inr (CatalogRecord
       \<lparr>installation = ''pv_distributed'', activity_id = ''WRF'', institution_id = ''ERA'',
        source_id = ''EC-Earth3'', experiment_id = ''historical'', table_id = ''1hr'',
        variable_id = ''cf'', grid_label = ''d03'',
        path = ''s3://wfclimres/ERA/pv_distributed/ec-earth3/historical/1hr/cf/d03/''\<rparr>) \<and>
   ''pv_distributed'' \<noteq> ''ERA''"
  by (simp add: parser_defs)

text \<open>
  C2, amended: for every successfully parsed path, \<open>activity_id\<close> and
  \<open>institution_id\<close> are the constants \<open>WRF\<close> and \<open>ERA\<close> whatever the path's first
  segment is; \<open>installation\<close> is the second segment, and \<open>experiment_id\<close>,
  \<open>table_id\<close>, \<open>variable_id\<close> and \<open>grid_label\<close> are the fourth to seventh segments,
  each copied verbatim.
\<close>

theorem catalog_record_field_sources:
  assumes "parse_ae_ren_data filepath = Inr (CatalogRecord r)"
  shows "\<exists>s1 s2 s3 s4 s5 s6 s7 s8.
           path_segments filepath = Inr [s1, s2, s3, s4, s5, s6, s7, s8] \<and>
           activity_id r = ''WRF'' \<and> institution_id r = ''ERA'' \<and>
           installation r = s2 \<and> experiment_id r = s4 \<and> table_id r = s5 \<and>
           variable_id r = s6 \<and> grid_label r = s7"
proof -
  from assms obtain s1 s2 s3 s4 s5 s6 s7 s8 name where
    segs: "path_segments filepath = Inr [s1, s2, s3, s4, s5, s6, s7, s8]" and
    r: "r = \<lparr>installation = s2, activity_id = ''WRF'', institution_id = ''ERA'',
        source_id = name, experiment_id = s4, table_id = s5, variable_id = s6,
        grid_label = s7,
        path = (case find_str filepath zmetadata of None \<Rightarrow> filepath
                | Some i \<Rightarrow> take i filepath)\<rparr>"
    by (rule parse_CatalogRecordD)
  from segs show ?thesis unfolding r by simp
qed

theorem catalog_record_field_sources_witness:
  "\<exists>s1 s2 s3 s4 s5 s6 s7 s8.
     path_segments
       ''s3://wfclimres/ERA/pv_distributed/ec-earth3/historical/1hr/cf/d03/.zmetadata'' =
       Inr [s1, s2, s3, s4, s5, s6, s7, s8] \<and>
     s2 = ''pv_distributed'' \<and> s4 = ''historical'' \<and> s5 = ''1hr'' \<and> s6 = ''cf'' \<and>
     s7 = ''d03''"
  using catalog_record_field_sources[OF parse_example] by simp

subsection \<open>C3: well-formed paths\<close>

text \<open>
  As stated, C3 promises non-empty fields and a \<open>path\<close> field that is the input without
  its terminal file name for every path made of the root prefix and eight segments with a
  known simulation token. The parser checks neither: a segment may be empty, and the
  input is cut at the leftmost \<open>.zmetadata\<close>, wherever it stands. On the path below
  the second segment is empty and the fifth contains \<open>.zmetadata\<close>.
\<close>

theorem empty_segment_and_early_zmetadata:
  "split_at ''ERA//era5/historical/x.zmetadata/cf/d03/.zmetadata'' ''/'' =
     [''ERA'', [], ''era5'', ''historical'', ''x.zmetadata'', ''cf'', ''d03'', ''.zmetadata''] \<and>
   simulation_dict ''era5'' = Some ''ERA5'' \<and>
   parse_ae_ren_data
     (root_prefix @ ''ERA//era5/historical/x.zmetadata/cf/d03/.zmetadata'') =
     Inr (CatalogRecord
       \<lparr>installation = [], activity_id = ''WRF'', institution_id = ''ERA'',
        source_id = ''ERA5'', experiment_id = ''historical'', table_id = ''x.zmetadata'',
        variable_id = ''cf'', grid_label = ''d03'',
        path = ''s3://wfclimres/ERA//era5/historical/x''\<rparr>)"
  by (simp add: parser_defs)

text \<open>
  C3, amended: for every path made of the root prefix followed by exactly eight
  \<open>/\<close>-separated segments, none of them empty, whose third segment is a key of the
  lookup table, parsing succeeds and every field of the record is a non-empty string; the
  \<open>path\<close> field is the input cut at the leftmost occurrence of \<open>.zmetadata\<close> (the
  whole input when there is none), which is the input with the terminal file name removed
  when the leftmost occurrence is the one that ends the input.
\<close>

theorem rooted_path_parses_nonempty:
  assumes "filepath = root_prefix @ rest"
    and "split_at rest ''/'' = [s1, s2, s3, s4, s5, s6, s7, s8]"
    and "[] \<notin> set [s1, s2, s3, s4, s5, s6, s7, s8]"
    and "simulation_dict s3 = Some name"
  shows "\<exists>r. parse_ae_ren_data filepath = Inr (CatalogRecord r) \<and>
           installation r \<noteq> [] \<and> activity_id r \<noteq> [] \<and> institution_id r \<noteq> [] \<and>
           source_id r \<noteq> [] \<and> experiment_id r \<noteq> [] \<and> table_id r \<noteq> [] \<and>
           variable_id r \<noteq> [] \<and> grid_label r \<noteq> [] \<and> path r \<noteq> [] \<and>
           path r = (case find_str filepath zmetadata of None \<Rightarrow> filepath
                     | Some i \<Rightarrow> take i filepath) \<and>
           (find_str filepath zmetadata = Some (length filepath - length zmetadata) \<longrightarrow>
              path r @ zmetadata = filepath)"
proof -
  from assms(2,3) have "[] \<notin> set (split_at rest ''/'')" by simp
  from path_segments_rooted[OF this] assms(1,2)
  have segs: "path_segments filepath = Inr [s1, s2, s3, s4, s5, s6, s7, s8]" by simp
  from simulation_dict_Some[OF assms(4)] have name: "name \<noteq> []" by auto
  have p: "(case find_str filepath zmetadata of None \<Rightarrow> filepath
            | Some i \<Rightarrow> take i filepath) \<noteq> []"
    unfolding assms(1) by (rule path_field_rooted_not_Nil)
  have t: "find_str filepath zmetadata = Some (length filepath - length zmetadata) \<longrightarrow>
      (case find_str filepath zmetadata of None \<Rightarrow> filepath
       | Some i \<Rightarrow> take i filepath) @ zmetadata = filepath"
    using find_str_terminal[of filepath zmetadata] by simp
  from assms(3) name p t show ?thesis
    unfolding parse_success[OF segs assms(4)] by auto
qed

theorem rooted_path_parses_nonempty_witness:
  "\<exists>r. parse_ae_ren_data
          ''s3://wfclimres/ERA/pv_distributed/ec-earth3/historical/1hr/cf/d03/.zmetadata'' =
          Inr (CatalogRecord r) \<and>
       installation r \<noteq> [] \<and> activity_id r \<noteq> [] \<and> institution_id r \<noteq> [] \<and>
       source_id r \<noteq> [] \<and> experiment_id r \<noteq> [] \<and> table_id r \<noteq> [] \<and>
       variable_id r \<noteq> [] \<and> grid_label r \<noteq> [] \<and> path r \<noteq> [] \<and>
       path r @ ''.zmetadata'' =
         ''s3://wfclimres/ERA/pv_distributed/ec-earth3/historical/1hr/cf/d03/.zmetadata''"
proof -
  have a: "''s3://wfclimres/ERA/pv_distributed/ec-earth3/historical/1hr/cf/d03/.zmetadata'' =
      root_prefix @ ''ERA/pv_distributed/ec-earth3/historical/1hr/cf/d03/.zmetadata''"
    by (simp add: root_prefix_def)
  have b: "split_at ''ERA/pv_distributed/ec-earth3/historical/1hr/cf/d03/.zmetadata'' ''/'' =
      [''ERA'', ''pv_distributed'', ''ec-earth3'', ''historical'', ''1hr'', ''cf'', ''d03'',
       ''.zmetadata'']"
    by (simp add: split_at.simps)
  have c: "[] \<notin> set [''ERA'', ''pv_distributed'', ''ec-earth3'', ''historical'', ''1hr'', ''cf'',
      ''d03'', ''.zmetadata'']"
    by simp
  have d: "simulation_dict ''ec-earth3'' = Some ''EC-Earth3''"
    by (simp add: simulation_dict_def simulation_table_def)
  have e: "find_str ''s3://wfclimres/ERA/pv_distributed/ec-earth3/historical/1hr/cf/d03/.zmetadata''
      zmetadata =
    Some (length ''s3://wfclimres/ERA/pv_distributed/ec-earth3/historical/1hr/cf/d03/.zmetadata''
      - length zmetadata)"
    by (simp add: zmetadata_def)
  from rooted_path_parses_nonempty[OF a b c d] e show ?thesis
    by (simp add: zmetadata_def)
qed

subsection \<open>C4: malformed paths\<close>

text \<open>
  As stated, C4 counts the segments of everything that follows the root prefix. The
  parser counts the segments of the piece at index 1 of the split on the prefix, and that
  piece ends where the prefix occurs again. On the path below the text after the prefix
  has twelve segments, and the parser returns a catalog record.
\<close>

theorem later_root_prefix_ends_remainder:
  "find_str ''s3://wfclimres/era/pv/era5/h/d/v/g/s3://wfclimres/x/.zmetadata'' root_prefix = Some 0 \<and>
   ''s3://wfclimres/era/pv/era5/h/d/v/g/s3://wfclimres/x/.zmetadata'' =
     root_prefix @ ''era/pv/era5/h/d/v/g/s3://wfclimres/x/.zmetadata'' \<and>
   split_at ''era/pv/era5/h/d/v/g/s3://wfclimres/x/.zmetadata'' ''/'' =
     [''era'', ''pv'', ''era5'', ''h'', ''d'', ''v'', ''g'', ''s3:'', [], ''wfclimres'', ''x'',
      ''.zmetadata''] \<and>
   parse_ae_ren_data ''s3://wfclimres/era/pv/era5/h/d/v/g/s3://wfclimres/x/.zmetadata'' =
     Inr (CatalogRecord
       \<lparr>installation = ''pv'', activity_id = ''WRF'', institution_id = ''ERA'',
        source_id = ''ERA5'', experiment_id = ''h'', table_id = ''d'',
        variable_id = ''v'', grid_label = ''g'',
        path = ''s3://wfclimres/era/pv/era5/h/d/v/g/s3://wfclimres/x/''\<rparr>)"
  by (simp add: parser_defs)

text \<open>
  C4, amended: for every path that does not contain the root prefix
  \<open>s3://wfclimres/\<close>, and for every path in which the text between the leftmost
  occurrence of the root prefix and its next occurrence (the end of the path when there is
  none) splits into a number of \<open>/\<close>-separated segments other than eight, parsing
  returns a parse failure record whose invalid-asset field is the original input path,
  unchanged. In the statement \<open>pre\<close> is the text before the leftmost occurrence,
  \<open>mid\<close> the text between the two occurrences, and \<open>tail\<close> what follows: nothing,
  or a text that starts with the prefix.
\<close>

theorem malformed_path_is_parse_failure:
  assumes "(\<forall>a b. filepath \<noteq> a @ root_prefix @ b) \<or>
           (\<exists>pre mid tail.
              filepath = pre @ root_prefix @ mid @ tail \<and>
              (\<forall>a b. filepath = a @ root_prefix @ b \<longrightarrow> length pre \<le> length a) \<and>
              (tail = [] \<or> prefix root_prefix tail) \<and>
              (\<forall>a b. mid @ tail = a @ root_prefix @ b \<longrightarrow> length mid \<le> length a) \<and>
              length (split_at mid ''/'') \<noteq> 8)"
  shows "\<exists>e. parse_ae_ren_data filepath =
           Inr (ParseFailure \<lparr>invalid_asset = filepath, traceback = e\<rparr>)"
  using assms
proof
  assume "\<forall>a b. filepath \<noteq> a @ root_prefix @ b"
  then have "path_segments filepath = Inl IndexError" by (rule path_segments_no_root)
  then show ?thesis using parse_index_error by blast
next
  assume "\<exists>pre mid tail.
              filepath = pre @ root_prefix @ mid @ tail \<and>
              (\<forall>a b. filepath = a @ root_prefix @ b \<longrightarrow> length pre \<le> length a) \<and>
              (tail = [] \<or> prefix root_prefix tail) \<and>
              (\<forall>a b. mid @ tail = a @ root_prefix @ b \<longrightarrow> length mid \<le> length a) \<and>
              length (split_at mid ''/'') \<noteq> 8"
  then obtain pre mid tail where
    h: "filepath = pre @ root_prefix @ mid @ tail"
      "\<forall>a b. filepath = a @ root_prefix @ b \<longrightarrow> length pre \<le> length a"
      "tail = [] \<or> prefix root_prefix tail"
      "\<forall>a b. mid @ tail = a @ root_prefix @ b \<longrightarrow> length mid \<le> length a"
    and n: "length (split_at mid ''/'') \<noteq> 8"
    by blast
  from path_segments_between[OF h] have "path_segments filepath = Inr (split_at mid ''/'')" .
  from parse_value_error[OF this n] show ?thesis by blast
qed

theorem malformed_path_is_parse_failure_witness:
  "(\<exists>e. parse_ae_ren_data
           ''gs://other/ERA/pv_distributed/ec-earth3/historical/1hr/cf/d03/.zmetadata'' =
      Inr (ParseFailure
        \<lparr>invalid_asset =
           ''gs://other/ERA/pv_distributed/ec-earth3/historical/1hr/cf/d03/.zmetadata'',
         traceback = e\<rparr>)) \<and>
   (\<exists>e. parse_ae_ren_data ''s3://wfclimres/ERA/pv_distributed/ec-earth3/historical/.zmetadata'' =
      Inr (ParseFailure
        \<lparr>invalid_asset = ''s3://wfclimres/ERA/pv_distributed/ec-earth3/historical/.zmetadata'',
         traceback = e\<rparr>)) \<and>
   (\<exists>e. parse_ae_ren_data
           ''s3://wfclimres/era/pv_utility/era5/ssp370/s3://wfclimres/.zmetadata'' =
      Inr (ParseFailure
        \<lparr>invalid_asset = ''s3://wfclimres/era/pv_utility/era5/ssp370/s3://wfclimres/.zmetadata'',
         traceback = e\<rparr>))"
proof -
  have five: "\<exists>pre mid tail.
      ''s3://wfclimres/ERA/pv_distributed/ec-earth3/historical/.zmetadata'' =
        pre @ root_prefix @ mid @ tail \<and>
      (\<forall>a b. ''s3://wfclimres/ERA/pv_distributed/ec-earth3/historical/.zmetadata'' =
          a @ root_prefix @ b \<longrightarrow> length pre \<le> length a) \<and>
      (tail = [] \<or> prefix root_prefix tail) \<and>
      (\<forall>a b. mid @ tail = a @ root_prefix @ b \<longrightarrow> length mid \<le> length a) \<and>
      length (split_at mid ''/'') \<noteq> 8"
  proof (intro exI conjI)
    show "''s3://wfclimres/ERA/pv_distributed/ec-earth3/historical/.zmetadata'' =
        [] @ root_prefix @ ''ERA/pv_distributed/ec-earth3/historical/.zmetadata'' @ []"
      by (simp add: root_prefix_def)
    show "\<forall>a b. ''s3://wfclimres/ERA/pv_distributed/ec-earth3/historical/.zmetadata'' =
          a @ root_prefix @ b \<longrightarrow> length ([] :: string) \<le> length a"
      by simp
    show "([] :: string) = [] \<or> prefix root_prefix []" by simp
    have "find_str ''ERA/pv_distributed/ec-earth3/historical/.zmetadata'' root_prefix = None"
      by (simp add: root_prefix_def)
    then show "\<forall>a b. ''ERA/pv_distributed/ec-earth3/historical/.zmetadata'' @ [] =
        a @ root_prefix @ b \<longrightarrow>
        length ''ERA/pv_distributed/ec-earth3/historical/.zmetadata'' \<le> length a"
      unfolding append_Nil2 by (rule never_occurs)
    show "length (split_at ''ERA/pv_distributed/ec-earth3/historical/.zmetadata'' ''/'') \<noteq> 8"
      by (simp add: split_at.simps)
  qed
  have again: "\<exists>pre mid tail.
      ''s3://wfclimres/era/pv_utility/era5/ssp370/s3://wfclimres/.zmetadata'' =
        pre @ root_prefix @ mid @ tail \<and>
      (\<forall>a b. ''s3://wfclimres/era/pv_utility/era5/ssp370/s3://wfclimres/.zmetadata'' =
          a @ root_prefix @ b \<longrightarrow> length pre \<le> length a) \<and>
      (tail = [] \<or> prefix root_prefix tail) \<and>
      (\<forall>a b. mid @ tail = a @ root_prefix @ b \<longrightarrow> length mid \<le> length a) \<and>
      length (split_at mid ''/'') \<noteq> 8"
  proof (intro exI conjI)
    show "''s3://wfclimres/era/pv_utility/era5/ssp370/s3://wfclimres/.zmetadata'' =
        [] @ root_prefix @ ''era/pv_utility/era5/ssp370/'' @ ''s3://wfclimres/.zmetadata''"
      by (simp add: root_prefix_def)
    show "\<forall>a b. ''s3://wfclimres/era/pv_utility/era5/ssp370/s3://wfclimres/.zmetadata'' =
          a @ root_prefix @ b \<longrightarrow> length ([] :: string) \<le> length a"
      by simp
    show "''s3://wfclimres/.zmetadata'' = [] \<or> prefix root_prefix ''s3://wfclimres/.zmetadata''"
      by (simp add: root_prefix_def)
    have "find_str (''era/pv_utility/era5/ssp370/'' @ ''s3://wfclimres/.zmetadata'') root_prefix =
        Some (length ''era/pv_utility/era5/ssp370/'')"
      by (simp add: root_prefix_def)
    then show "\<forall>a b. ''era/pv_utility/era5/ssp370/'' @ ''s3://wfclimres/.zmetadata'' =
        a @ root_prefix @ b \<longrightarrow> length ''era/pv_utility/era5/ssp370/'' \<le> length a"
      by (rule leftmost_occurrence)
    show "length (split_at ''era/pv_utility/era5/ssp370/'' ''/'') \<noteq> 8"
      by (simp add: split_at.simps)
  qed
  show ?thesis
    using malformed_path_is_parse_failure[OF disjI1[OF no_root_example]] malformed_path_is_parse_failure[OF disjI2[OF five]] malformed_path_is_parse_failure[OF disjI2[OF again]]
    by (intro conjI)
qed

subsection \<open>C5: the source identifier is canonical\<close>

text \<open>
  C5: whenever the parser returns a catalog record, its \<open>source_id\<close> is one of the
  canonical display names of the lookup table (\<open>EC-Earth3\<close>, \<open>MPI-ESM1-2-HR\<close>,
  \<open>MIROC6\<close>, \<open>TaiESM1\<close>, \<open>ERA5\<close>): it is the table's value for the third path
  segment, which is therefore a key of the table, and it differs from that raw token.
\<close>

theorem source_id_is_canonical:
  assumes "parse_ae_ren_data filepath = Inr (CatalogRecord r)"
  shows "source_id r \<in> {''EC-Earth3'', ''MPI-ESM1-2-HR'', ''MIROC6'', ''TaiESM1'', ''ERA5''} \<and>
         (\<exists>s1 s2 s3 s4 s5 s6 s7 s8.
            path_segments filepath = Inr [s1, s2, s3, s4, s5, s6, s7, s8] \<and>
            simulation_dict s3 = Some (source_id r) \<and> source_id r \<noteq> s3)"
proof -
  from assms obtain s1 s2 s3 s4 s5 s6 s7 s8 name where
    segs: "path_segments filepath = Inr [s1, s2, s3, s4, s5, s6, s7, s8]" and
    name: "simulation_dict s3 = Some name" and
    r: "r = \<lparr>installation = s2, activity_id = ''WRF'', institution_id = ''ERA'',
        source_id = name, experiment_id = s4, table_id = s5, variable_id = s6,
        grid_label = s7,
        path = (case find_str filepath zmetadata of None \<Rightarrow> filepath
                | Some i \<Rightarrow> take i filepath)\<rparr>"
    by (rule parse_CatalogRecordD)
  from r have sid: "source_id r = name" by simp
  from simulation_dict_Some[OF name]
  have "name \<in> {''EC-Earth3'', ''MPI-ESM1-2-HR'', ''MIROC6'', ''TaiESM1'', ''ERA5''}"
    and "name \<noteq> s3" by simp_all
  with segs name show ?thesis unfolding sid by blast
qed

theorem source_id_is_canonical_witness:
  "''EC-Earth3'' \<in> {''EC-Earth3'', ''MPI-ESM1-2-HR'', ''MIROC6'', ''TaiESM1'', ''ERA5''} \<and>
   (\<exists>s1 s2 s3 s4 s5 s6 s7 s8.
      path_segments
        ''s3://wfclimres/ERA/pv_distributed/ec-earth3/historical/1hr/cf/d03/.zmetadata'' =
        Inr [s1, s2, s3, s4, s5, s6, s7, s8] \<and>
      simulation_dict s3 = Some ''EC-Earth3'' \<and> ''EC-Earth3'' \<noteq> s3)"
  using source_id_is_canonical[OF parse_example] by simp

subsection \<open>C6: the canonical example\<close>

text \<open>
  C6: parsing \<open>s3://wfclimres/ERA/pv_distributed/ec-earth3/historical/1hr/cf/d03/.zmetadata\<close>
  succeeds with \<open>source_id = EC-Earth3\<close>, \<open>installation = pv_distributed\<close>,
  \<open>experiment_id = historical\<close>, \<open>table_id = 1hr\<close>, \<open>variable_id = cf\<close>,
  \<open>grid_label = d03\<close>, and \<open>path\<close> the input without the terminal \<open>.zmetadata\<close>.
\<close>

theorem parse_canonical_example:
  "parse_ae_ren_data
     ''s3://wfclimres/ERA/pv_distributed/ec-earth3/historical/1hr/cf/d03/.zmetadata'' =
     Inr (CatalogRecord
       \<lparr>installation = ''pv_distributed'', activity_id = ''WRF'', institution_id = ''ERA'',
        source_id = ''EC-Earth3'', experiment_id = ''historical'', table_id = ''1hr'',
        variable_id = ''cf'', grid_label = ''d03'',
        path = ''s3://wfclimres/ERA/pv_distributed/ec-earth3/historical/1hr/cf/d03/''\<rparr>) \<and>
   ''s3://wfclimres/ERA/pv_distributed/ec-earth3/historical/1hr/cf/d03/'' @ zmetadata =
     ''s3://wfclimres/ERA/pv_distributed/ec-earth3/historical/1hr/cf/d03/.zmetadata'' \<and>
   ''EC-Earth3'' \<noteq> ''ec-earth3''"
  by (simp add: parser_defs)

subsection \<open>C7: the path field does not end with the metadata file name\<close>

text \<open>
  C7: whenever the parser returns a catalog record, its \<open>path\<close> field does not end
  with \<open>.zmetadata\<close>. The field is the first piece of the split on \<open>.zmetadata\<close>,
  and that piece contains no occurrence of the separator at all.
\<close>

theorem path_never_ends_with_zmetadata:
  assumes "parse_ae_ren_data filepath = Inr (CatalogRecord r)"
  shows "\<not> suffix zmetadata (path r)"
proof
  assume "suffix zmetadata (path r)"
  then obtain stem where stem: "path r = stem @ zmetadata" by (auto simp: suffix_def)
  from assms obtain s1 s2 s3 s4 s5 s6 s7 s8 name where
    "path_segments filepath = Inr [s1, s2, s3, s4, s5, s6, s7, s8]" and
    "r = \<lparr>installation = s2, activity_id = ''WRF'', institution_id = ''ERA'',
        source_id = name, experiment_id = s4, table_id = s5, variable_id = s6,
        grid_label = s7,
        path = (case find_str filepath zmetadata of None \<Rightarrow> filepath
                | Some i \<Rightarrow> take i filepath)\<rparr>"
    by (rule parse_CatalogRecordD)
  then have "path r = hd (split_at filepath zmetadata)"
    by (simp add: hd_split_at zmetadata_not_Nil)
  with stem have "hd (split_at filepath zmetadata) = stem @ zmetadata @ []" by simp
  with hd_split_at_no_sep[OF zmetadata_not_Nil] show False by blast
qed

theorem path_never_ends_with_zmetadata_witness:
  "\<not> suffix zmetadata ''s3://wfclimres/ERA/pv_distributed/ec-earth3/historical/1hr/cf/d03/''"
  using path_never_ends_with_zmetadata[OF parse_example] by simp

subsection \<open>C9: the root prefix is not anchored\<close>

text \<open>
  C9: the root prefix is found by a split on its leftmost occurrence, not anchored at the
  start of the path: the path below does not start with \<open>s3://wfclimres/\<close>, parsing
  succeeds, and the fields are the segments of the text after the occurrence.
\<close>

theorem root_prefix_not_anchored:
  "\<not> prefix root_prefix
       ''junk-s3://wfclimres/era/pv_distributed/ec-earth3/historical/1hr/cf/d03/.zmetadata'' \<and>
   path_segments
     ''junk-s3://wfclimres/era/pv_distributed/ec-earth3/historical/1hr/cf/d03/.zmetadata'' =
     Inr [''era'', ''pv_distributed'', ''ec-earth3'', ''historical'', ''1hr'', ''cf'', ''d03'',
          ''.zmetadata''] \<and>
   parse_ae_ren_data
     ''junk-s3://wfclimres/era/pv_distributed/ec-earth3/historical/1hr/cf/d03/.zmetadata'' =
     Inr (CatalogRecord
       \<lparr>installation = ''pv_distributed'', activity_id = ''WRF'', institution_id = ''ERA'',
        source_id = ''EC-Earth3'', experiment_id = ''historical'', table_id = ''1hr'',
        variable_id = ''cf'', grid_label = ''d03'',
        path = ''junk-s3://wfclimres/era/pv_distributed/ec-earth3/historical/1hr/cf/d03/''\<rparr>)"
  by (simp add: parser_defs)

subsection \<open>C10: the terminal segment is not inspected\<close>

text \<open>
  As stated, C10 promises success for every path with eight segments and a known
  simulation token, and an unchanged \<open>path\<close> field whenever the last segment is not
  the metadata file name. Neither holds on the code. On the first path below the text
  after the root prefix has eight segments and the token \<open>era5\<close>, but the prefix
  occurs again inside it and the parser, which sees five segments, returns a parse failure
  record. On the second path the last segment is \<open>README\<close>, and the \<open>path\<close>
  field is cut inside the second segment, where \<open>.zmetadata\<close> first occurs.
\<close>

theorem eight_segments_failure_and_cut_path:
  "split_at ''era/pv_utility/era5/ssp370/s3://wfclimres/.zmetadata'' ''/'' =
     [''era'', ''pv_utility'', ''era5'', ''ssp370'', ''s3:'', [], ''wfclimres'', ''.zmetadata''] \<and>
   simulation_dict ''era5'' = Some ''ERA5'' \<and>
   parse_ae_ren_data
     (root_prefix @ ''era/pv_utility/era5/ssp370/s3://wfclimres/.zmetadata'') =
     Inr (ParseFailure
       \<lparr>invalid_asset = ''s3://wfclimres/era/pv_utility/era5/ssp370/s3://wfclimres/.zmetadata'',
        traceback = ValueError\<rparr>) \<and>
   split_at ''era/pv.zmetadata/miroc6/ssp370/day/cf/d02/README'' ''/'' =
     [''era'', ''pv.zmetadata'', ''miroc6'', ''ssp370'', ''day'', ''cf'', ''d02'', ''README''] \<and>
   ''README'' \<noteq> zmetadata \<and>
   parse_ae_ren_data (root_prefix @ ''era/pv.zmetadata/miroc6/ssp370/day/cf/d02/README'') =
     Inr (CatalogRecord
       \<lparr>installation = ''pv.zmetadata'', activity_id = ''WRF'', institution_id = ''ERA'',
        source_id = ''MIROC6'', experiment_id = ''ssp370'', table_id = ''day'',
        variable_id = ''cf'', grid_label = ''d02'',
        path = ''s3://wfclimres/era/pv''\<rparr>)"
  by (simp add: parser_defs)

text \<open>
  C10, amended: the parser never looks at the eighth segment. For every path in which the
  text between the leftmost occurrence of the root prefix and its next occurrence (the end
  of the path when there is none) splits into eight \<open>/\<close>-separated segments, the
  third of them a key of the lookup table, parsing succeeds, whatever the last segment
  is; the \<open>path\<close> field is the input unchanged when \<open>.zmetadata\<close> occurs nowhere
  in the input, and otherwise the input cut at the leftmost occurrence of
  \<open>.zmetadata\<close>, with everything from there on removed. (\<open>find_str\<close> returns
  \<open>None\<close> exactly when there is no occurrence, and the least index of an occurrence
  otherwise; \<open>pre\<close>, \<open>mid\<close> and \<open>tail\<close> are as in C4.)
\<close>

theorem terminal_segment_not_inspected:
  assumes "filepath = pre @ root_prefix @ mid @ tail"
    and "\<forall>a b. filepath = a @ root_prefix @ b \<longrightarrow> length pre \<le> length a"
    and "tail = [] \<or> prefix root_prefix tail"
    and "\<forall>a b. mid @ tail = a @ root_prefix @ b \<longrightarrow> length mid \<le> length a"
    and "split_at mid ''/'' = [s1, s2, s3, s4, s5, s6, s7, s8]"
    and "simulation_dict s3 = Some name"
  shows "\<exists>r. parse_ae_ren_data filepath = Inr (CatalogRecord r) \<and>
           path r = (case find_str filepath zmetadata of None \<Rightarrow> filepath
                     | Some i \<Rightarrow> take i filepath)"
proof -
  from path_segments_between[OF assms(1-4)] assms(5)
  have "path_segments filepath = Inr [s1, s2, s3, s4, s5, s6, s7, s8]" by simp
  from parse_success[OF this assms(6)] show ?thesis by simp
qed

theorem terminal_segment_not_inspected_witness:
  "(\<exists>r. parse_ae_ren_data ''s3://wfclimres/era/pv_utility/miroc6/ssp370/day/cf/d02/README'' =
          Inr (CatalogRecord r) \<and>
        path r = ''s3://wfclimres/era/pv_utility/miroc6/ssp370/day/cf/d02/README'') \<and>
   (\<exists>r. parse_ae_ren_data
          ''s3://wfclimres/era/pv/era5/h/d/v/a.zmetadata.zmetadata/s3://wfclimres/x'' =
          Inr (CatalogRecord r) \<and>
        path r = ''s3://wfclimres/era/pv/era5/h/d/v/a'')"
proof -
  have miroc: "simulation_dict ''miroc6'' = Some ''MIROC6''"
    by (simp add: simulation_dict_def simulation_table_def)
  have era5: "simulation_dict ''era5'' = Some ''ERA5''"
    by (simp add: simulation_dict_def simulation_table_def)
  have r1: "''s3://wfclimres/era/pv_utility/miroc6/ssp370/day/cf/d02/README'' =
      [] @ root_prefix @ ''era/pv_utility/miroc6/ssp370/day/cf/d02/README'' @ []"
    by (simp add: root_prefix_def)
  have r2: "\<forall>a b. ''s3://wfclimres/era/pv_utility/miroc6/ssp370/day/cf/d02/README'' =
      a @ root_prefix @ b \<longrightarrow> length ([] :: string) \<le> length a"
    by simp
  have r3: "([] :: string) = [] \<or> prefix root_prefix []" by simp
  have "find_str ''era/pv_utility/miroc6/ssp370/day/cf/d02/README'' root_prefix = None"
    by (simp add: root_prefix_def)
  then have r4: "\<forall>a b. ''era/pv_utility/miroc6/ssp370/day/cf/d02/README'' @ [] =
      a @ root_prefix @ b \<longrightarrow>
      length ''era/pv_utility/miroc6/ssp370/day/cf/d02/README'' \<le> length a"
    unfolding append_Nil2 by (rule never_occurs)
  have r5: "split_at ''era/pv_utility/miroc6/ssp370/day/cf/d02/README'' ''/'' =
      [''era'', ''pv_utility'', ''miroc6'', ''ssp370'', ''day'', ''cf'', ''d02'', ''README'']"
    by (simp add: split_at.simps)
  have t1: "''s3://wfclimres/era/pv/era5/h/d/v/a.zmetadata.zmetadata/s3://wfclimres/x'' =
      [] @ root_prefix @ ''era/pv/era5/h/d/v/a.zmetadata.zmetadata/'' @ ''s3://wfclimres/x''"
    by (simp add: root_prefix_def)
  have t2: "\<forall>a b. ''s3://wfclimres/era/pv/era5/h/d/v/a.zmetadata.zmetadata/s3://wfclimres/x'' =
      a @ root_prefix @ b \<longrightarrow> length ([] :: string) \<le> length a"
    by simp
  have t3: "''s3://wfclimres/x'' = [] \<or> prefix root_prefix ''s3://wfclimres/x''"
    by (simp add: root_prefix_def)
  have "find_str (''era/pv/era5/h/d/v/a.zmetadata.zmetadata/'' @ ''s3://wfclimres/x'')
      root_prefix = Some (length ''era/pv/era5/h/d/v/a.zmetadata.zmetadata/'')"
    by (simp add: root_prefix_def)
  then have t4: "\<forall>a b. ''era/pv/era5/h/d/v/a.zmetadata.zmetadata/'' @ ''s3://wfclimres/x'' =
      a @ root_prefix @ b \<longrightarrow>
      length ''era/pv/era5/h/d/v/a.zmetadata.zmetadata/'' \<le> length a"
    by (rule leftmost_occurrence)
  have t5: "split_at ''era/pv/era5/h/d/v/a.zmetadata.zmetadata/'' ''/'' =
      [''era'', ''pv'', ''era5'', ''h'', ''d'', ''v'', ''a.zmetadata.zmetadata'', []]"
    by (simp add: split_at.simps)
  show ?thesis
    using terminal_segment_not_inspected[OF r1 r2 r3 r4 r5 miroc] terminal_segment_not_inspected[OF t1 t2 t3 t4 t5 era5]
    by (simp add: zmetadata_def)
qed

end
